theory Spec2Isabelle
  imports Main "HOL-Library.Word" "HOL-Library.Sublist"
begin

unbundle bit_operations_syntax

section \<open>The recipe store of recipes-api\<close>

text \<open>
  The program keeps one package-level slice \<^verbatim>\<open>recipes []Recipe\<close> and five gin
  handlers that read and mutate it. Each handler is modelled as a function from the
  parts of the request it reads and the current slice to the JSON response it writes
  and the slice it leaves behind.
\<close>

subsection \<open>Data model\<close>

text \<open>
  \<^verbatim>\<open>type Recipe struct\<close>. The field \<^verbatim>\<open>PublishedAt time.Time\<close> is kept as an
  integer instant; the store only copies it.
\<close>

record Recipe =
  ID :: string
  Name :: string
  Tags :: "string list"
  Ingredients :: "string list"
  Instructions :: "string list"
  PublishedAt :: int

text \<open>
  What a handler hands to \<^verbatim>\<open>c.JSON\<close>: a status code and a body. \<^verbatim>\<open>gin.H{"error": s}\<close>
  is \<open>ErrorBody s\<close>, \<^verbatim>\<open>gin.H{"message": s}\<close> is \<open>MessageBody s\<close>.
\<close>

datatype body =
    RecipeBody Recipe
  | RecipesBody "Recipe list"
  | ErrorBody string
  | MessageBody string

type_synonym response = "nat \<times> body"

definition StatusOK :: nat where
  "StatusOK = 200"

definition StatusBadRequest :: nat where
  "StatusBadRequest = 400"

definition StatusNotFound :: nat where
  "StatusNotFound = 404"

text \<open>
  \<^verbatim>\<open>c.ShouldBindJSON(&recipe)\<close> either fails with an error message or fills the
  struct: its outcome is the value \<open>Inl err\<close> or \<open>Inr recipe\<close>.
\<close>

type_synonym bound = "string + Recipe"

subsection \<open>The id scan\<close>

text \<open>
  Both \<^verbatim>\<open>UpdateRecipeHandler\<close> and \<^verbatim>\<open>DeleteRecipeHandler\<close> run the same loop:
  \<^verbatim>\<open>
  index := -1
  for i := 0; i < len(recipes); i++ {
      if recipes[i].ID == id {
          index = i
      }
  }
  \<close>
  \<open>scan_loop recipes rid i index\<close> is the loop from counter \<open>i\<close> with the current
  value of \<open>index\<close>; there is no \<^verbatim>\<open>break\<close>.
\<close>

function scan_loop :: "Recipe list \<Rightarrow> string \<Rightarrow> nat \<Rightarrow> int \<Rightarrow> int" where
  "scan_loop recipes rid i index =
     (if i < length recipes
      then scan_loop recipes rid (i + 1) (if ID (recipes ! i) = rid then int i else index)
      else index)"
  by pat_completeness auto
termination
  by (relation "measure (\<lambda>(recipes, rid, i, index). length recipes - i)") auto

declare scan_loop.simps [simp del]

subsection \<open>Handlers\<close>

text \<open>
  \<^verbatim>\<open>NewRecipeHandler\<close>. The results of \<^verbatim>\<open>xid.New().String()\<close> and \<^verbatim>\<open>time.Now()\<close>
  are inputs of the model (\<open>new_id\<close>, \<open>now\<close>).
\<close>

definition NewRecipeHandler ::
  "string \<Rightarrow> int \<Rightarrow> bound \<Rightarrow> Recipe list \<Rightarrow> response \<times> Recipe list" where
  "NewRecipeHandler new_id now b recipes =
     (case b of
        Inl err \<Rightarrow> ((StatusBadRequest, ErrorBody err), recipes)
      | Inr recipe0 \<Rightarrow>
          (let recipe1 = recipe0\<lparr>ID := new_id\<rparr>;
               recipe = recipe1\<lparr>PublishedAt := now\<rparr>;
               recipes' = recipes @ [recipe]
           in ((StatusOK, RecipeBody recipe), recipes')))"

definition ListRecipesHandler :: "Recipe list \<Rightarrow> response \<times> Recipe list" where
  "ListRecipesHandler recipes = ((StatusOK, RecipesBody recipes), recipes)"

text \<open>
  \<^verbatim>\<open>UpdateRecipeHandler\<close>: \<open>rid\<close> is \<^verbatim>\<open>c.Param("id")\<close>. When the scan leaves
  \<open>index\<close> at \<open>-1\<close> the handler answers 404 and returns; otherwise
  \<^verbatim>\<open>recipes[index] = recipe\<close>.
\<close>

definition UpdateRecipeHandler ::
  "string \<Rightarrow> bound \<Rightarrow> Recipe list \<Rightarrow> response \<times> Recipe list" where
  "UpdateRecipeHandler rid b recipes =
     (case b of
        Inl err \<Rightarrow> ((StatusBadRequest, ErrorBody err), recipes)
      | Inr recipe \<Rightarrow>
          (let index = scan_loop recipes rid 0 (- 1)
           in if index = - 1
              then ((StatusNotFound, ErrorBody ''Recipe not found''), recipes)
              else ((StatusOK, RecipeBody recipe), recipes[nat index := recipe])))"

text \<open>
  \<^verbatim>\<open>DeleteRecipeHandler\<close>:
  \<^verbatim>\<open>recipes = append(recipes[:index], recipes[index+1:]...)\<close>.
\<close>

definition DeleteRecipeHandler :: "string \<Rightarrow> Recipe list \<Rightarrow> response \<times> Recipe list" where
  "DeleteRecipeHandler rid recipes =
     (let index = scan_loop recipes rid 0 (- 1)
      in if index = - 1
         then ((StatusNotFound, ErrorBody ''Recipe not found''), recipes)
         else ((StatusOK, MessageBody ''Recipe has been deleted''),
               take (nat index) recipes @ drop (nat index + 1) recipes))"

subsection \<open>Tag search\<close>

text \<open>
  \<^verbatim>\<open>strings.EqualFold(s, t)\<close> of the Go standard library, on strings as byte
  sequences. Its loop over the common prefix compares ASCII bytes: equal bytes pass,
  and so does a pair of an upper-case letter and its lower-case form; any other pair
  ends the comparison with \<^verbatim>\<open>false\<close>. When the prefix is exhausted the answer is
  \<^verbatim>\<open>len(s) == len(t)\<close>. At the first byte pair with \<^verbatim>\<open>sr|tr >= utf8.RuneSelf\<close>
  the library goes on with its Unicode case tables on the remaining suffixes; that
  part is the parameter \<open>hasUnicode\<close>.
\<close>

definition RuneSelf :: "8 word" where
  "RuneSelf = 0x80"

text \<open>
  One step of the ASCII loop on the bytes \<open>sr\<close> and \<open>tr\<close>: \<^verbatim>\<open>tr == sr\<close>, or, after
  the swap that makes \<^verbatim>\<open>sr < tr\<close>,
  \<^verbatim>\<open>'A' <= sr && sr <= 'Z' && tr == sr+'a'-'A'\<close>.
\<close>

definition ascii_step :: "8 word \<Rightarrow> 8 word \<Rightarrow> bool" where
  "ascii_step sr tr =
     (if tr = sr then True
      else (let lo = (if tr < sr then tr else sr);
                hi = (if tr < sr then sr else tr)
            in of_char CHR ''A'' \<le> lo \<and> lo \<le> of_char CHR ''Z''
               \<and> hi = lo + of_char CHR ''a'' - of_char CHR ''A''))"

fun EqualFold :: "(string \<Rightarrow> string \<Rightarrow> bool) \<Rightarrow> string \<Rightarrow> string \<Rightarrow> bool" where
  "EqualFold hasUnicode (a # s) (b # t) =
     (if (of_char a :: 8 word) OR of_char b \<ge> RuneSelf then hasUnicode (a # s) (b # t)
      else if ascii_step (of_char a) (of_char b) then EqualFold hasUnicode s t
      else False)"
| "EqualFold hasUnicode s t = (length s = length t)"




text \<open>
  The inner loop of \<^verbatim>\<open>SearchRecipesHandler\<close>,
  \<^verbatim>\<open>for _, t := range recipes[i].Tags { if strings.EqualFold(t, tag) { found = true } }\<close>,
  from the current value of \<open>found\<close>.
\<close>

fun tags_loop :: "(string \<Rightarrow> string \<Rightarrow> bool) \<Rightarrow> string list \<Rightarrow> string \<Rightarrow> bool \<Rightarrow> bool" where
  "tags_loop hasUnicode [] tag found = found"
| "tags_loop hasUnicode (t # ts) tag found =
     tags_loop hasUnicode ts tag (if EqualFold hasUnicode t tag then True else found)"

text \<open>
  The outer loop, from counter \<open>i\<close> with the current \<open>listOfRecipes\<close>.
\<close>

function search_loop ::
  "(string \<Rightarrow> string \<Rightarrow> bool) \<Rightarrow> Recipe list \<Rightarrow> string \<Rightarrow> nat \<Rightarrow> Recipe list \<Rightarrow> Recipe list" where
  "search_loop hasUnicode recipes tag i listOfRecipes =
     (if i < length recipes
      then (let found = tags_loop hasUnicode (Tags (recipes ! i)) tag False
            in search_loop hasUnicode recipes tag (i + 1)
                 (if found then listOfRecipes @ [recipes ! i] else listOfRecipes))
      else listOfRecipes)"
  by pat_completeness auto
termination
  by (relation "measure (\<lambda>(hasUnicode, recipes, tag, i, listOfRecipes). length recipes - i)") auto

declare search_loop.simps [simp del]

text \<open>
  \<^verbatim>\<open>c.Query("tag")\<close> is the value of the query parameter, and the empty string when
  the request has none.
\<close>

definition Query :: "string option \<Rightarrow> string" where
  "Query q = (case q of None \<Rightarrow> [] | Some v \<Rightarrow> v)"

definition SearchRecipesHandler ::
  "(string \<Rightarrow> string \<Rightarrow> bool) \<Rightarrow> string option \<Rightarrow> Recipe list \<Rightarrow> response \<times> Recipe list" where
  "SearchRecipesHandler hasUnicode q recipes =
     (let tag = Query q;
          listOfRecipes = search_loop hasUnicode recipes tag 0 []
      in ((StatusOK, RecipesBody listOfRecipes), recipes))"

subsection \<open>Example data\<close>

text \<open>
  The concrete collections used to evaluate the handlers. All their strings are ASCII,
  so \<open>EqualFold\<close> never enters its Unicode continuation on them; the examples pass
  the continuation that answers \<^verbatim>\<open>false\<close>.
\<close>

definition no_unicode :: "string \<Rightarrow> string \<Rightarrow> bool" where
  "no_unicode s t = False"

definition R1 :: Recipe where
  "R1 = \<lparr>ID = ''A'', Name = ''Carbonara'', Tags = [''Italian'', ''Quick''],
         Ingredients = [''eggs''], Instructions = [''stir''], PublishedAt = 1\<rparr>"

definition R2 :: Recipe where
  "R2 = \<lparr>ID = ''B'', Name = ''Tacos'', Tags = [''mexican''],
         Ingredients = [''corn''], Instructions = [''fold''], PublishedAt = 2\<rparr>"

definition R3 :: Recipe where
  "R3 = \<lparr>ID = ''C'', Name = ''Toast'', Tags = [],
         Ingredients = [''bread''], Instructions = [''toast''], PublishedAt = 3\<rparr>"

text \<open>A second record carrying the id of \<open>R1\<close>, and a replacement payload.\<close>

definition R1' :: Recipe where
  "R1' = \<lparr>ID = ''A'', Name = ''Risotto'', Tags = [''Italian''],
          Ingredients = [''rice''], Instructions = [''simmer''], PublishedAt = 4\<rparr>"

definition P0 :: Recipe where
  "P0 = \<lparr>ID = ''Z'', Name = ''Soup'', Tags = [''warm''],
         Ingredients = [''water''], Instructions = [''boil''], PublishedAt = 99\<rparr>"

text \<open>A record whose only tag is the empty string, and one with three tags that fold
  to the same string.\<close>

definition RE :: Recipe where
  "RE = \<lparr>ID = ''E'', Name = ''Plain'', Tags = [''''],
         Ingredients = [], Instructions = [], PublishedAt = 5\<rparr>"

definition RQ :: Recipe where
  "RQ = \<lparr>ID = ''Q'', Name = ''Salad'', Tags = [''Quick'', ''quick'', ''QUICK''],
         Ingredients = [], Instructions = [], PublishedAt = 6\<rparr>"

section \<open>Properties of the loops\<close>

subsection \<open>The id scan returns the last matching index\<close>

lemma scan_loop_absent:
  "rid \<notin> set (map ID (drop i recipes)) \<Longrightarrow> scan_loop recipes rid i index = index"
proof (induction recipes rid i index rule: scan_loop.induct)
  case (1 recipes rid i index)
  show ?case
  proof (cases "i < length recipes")
    case True
    then have "drop i recipes = recipes ! i # drop (Suc i) recipes"
      by (simp add: Cons_nth_drop_Suc)
    with "1.prems" have ne: "ID (recipes ! i) \<noteq> rid"
      and rest: "rid \<notin> set (map ID (drop (i + 1) recipes))"
      by auto
    from "1.IH" [OF True rest] ne True show ?thesis
      by (subst scan_loop.simps) simp
  next
    case False
    then show ?thesis by (subst scan_loop.simps) simp
  qed
qed

lemma scan_loop_last:
  "i \<le> k \<Longrightarrow> k < length recipes \<Longrightarrow> ID (recipes ! k) = rid \<Longrightarrow>
   rid \<notin> set (map ID (drop (Suc k) recipes)) \<Longrightarrow> scan_loop recipes rid i index = int k"
proof (induction recipes rid i index rule: scan_loop.induct)
  case (1 recipes rid i index)
  from "1.prems" have lt: "i < length recipes" by simp
  show ?case
  proof (cases "i = k")
    case True
    with "1.prems" have "scan_loop recipes rid (i + 1) (int i) = int i"
      by (intro scan_loop_absent) simp
    with True lt "1.prems" show ?thesis
      by (subst scan_loop.simps) simp
  next
    case False
    with "1.prems" have "i + 1 \<le> k" by simp
    from "1.IH" [OF lt this "1.prems"(2,3,4)] lt show ?thesis
      by (subst scan_loop.simps) simp
  qed
qed

text \<open>A collection that holds the id has a last position holding it.\<close>

lemma last_match_exists:
  "rid \<in> set (map ID recipes) \<Longrightarrow>
   \<exists>k<length recipes. ID (recipes ! k) = rid \<and> rid \<notin> set (map ID (drop (Suc k) recipes))"
proof (induction recipes)
  case Nil
  then show ?case by simp
next
  case (Cons r rs)
  show ?case
  proof (cases "rid \<in> set (map ID rs)")
    case True
    with Cons.IH obtain k where "k < length rs" "ID (rs ! k) = rid"
      "rid \<notin> set (map ID (drop (Suc k) rs))" by blast
    then have "Suc k < length (r # rs) \<and> ID ((r # rs) ! Suc k) = rid
       \<and> rid \<notin> set (map ID (drop (Suc (Suc k)) (r # rs)))" by simp
    then show ?thesis by blast
  next
    case False
    with Cons.prems have "ID r = rid" by simp
    with False have "0 < length (r # rs) \<and> ID ((r # rs) ! 0) = rid
       \<and> rid \<notin> set (map ID (drop (Suc 0) (r # rs)))" by simp
    then show ?thesis by blast
  qed
qed

lemma update_at_last:
  assumes "k < length recipes" "ID (recipes ! k) = rid"
    "rid \<notin> set (map ID (drop (Suc k) recipes))"
  shows "UpdateRecipeHandler rid (Inr payload) recipes =
           ((StatusOK, RecipeBody payload), recipes[k := payload])"
proof -
  from assms have "scan_loop recipes rid 0 (- 1) = int k"
    by (intro scan_loop_last) simp_all
  then show ?thesis by (simp add: UpdateRecipeHandler_def)
qed

lemma delete_at_last:
  assumes "k < length recipes" "ID (recipes ! k) = rid"
    "rid \<notin> set (map ID (drop (Suc k) recipes))"
  shows "DeleteRecipeHandler rid recipes =
           ((StatusOK, MessageBody ''Recipe has been deleted''),
            take k recipes @ drop (Suc k) recipes)"
proof -
  from assms have "scan_loop recipes rid 0 (- 1) = int k"
    by (intro scan_loop_last) simp_all
  then show ?thesis by (simp add: DeleteRecipeHandler_def)
qed

text \<open>
  The example of the specification: deleting \<open>''B''\<close> from \<open>[R1, R2, R3]\<close> leaves
  \<open>[R1, R3]\<close>.
\<close>

lemma delete_example:
  "DeleteRecipeHandler ''B'' [R1, R2, R3] =
     ((StatusOK, MessageBody ''Recipe has been deleted''), [R1, R3])"
  using delete_at_last [of 1 "[R1, R2, R3]" "''B''"]
  by (simp add: R1_def R2_def R3_def)

subsection \<open>The search loops compute a filter\<close>

lemma tags_loop_eq:
  "tags_loop U ts tag found = (found \<or> (\<exists>t\<in>set ts. EqualFold U t tag))"
  by (induction ts arbitrary: found) auto

lemma search_loop_filter:
  "search_loop U recipes tag i acc =
     acc @ filter (\<lambda>r. \<exists>t\<in>set (Tags r). EqualFold U t tag) (drop i recipes)"
proof (induction U recipes tag i acc rule: search_loop.induct)
  case (1 U recipes tag i acc)
  show ?case
  proof (cases "i < length recipes")
    case True
    then have d: "drop i recipes = recipes ! i # drop (Suc i) recipes"
      by (simp add: Cons_nth_drop_Suc)
    from "1.IH" [OF True refl] True show ?thesis
      by (subst search_loop.simps) (simp add: d tags_loop_eq Let_def)
  next
    case False
    then show ?thesis by (subst search_loop.simps) simp
  qed
qed

lemma search_result:
  "SearchRecipesHandler U q recipes =
     ((StatusOK,
       RecipesBody (filter (\<lambda>r. \<exists>t\<in>set (Tags r). EqualFold U t (Query q)) recipes)),
      recipes)"
  by (simp add: SearchRecipesHandler_def search_loop_filter)

lemma count_list_filter_le: "count_list (filter P xs) r \<le> count_list xs r"
  by (induction xs) auto

subsection \<open>\<open>EqualFold\<close> on ASCII strings\<close>

lemma EqualFold_empty: "EqualFold U t [] = (t = [])"
  by (cases t) simp_all








section \<open>The claims of the specification\<close>

subsection \<open>Update\<close>

text \<open>
  C1. When several elements carry the given id, update selects the last of them in
  iteration order: if position \<open>k\<close> holds the id and no later position does, the
  replacement is written at \<open>k\<close>.
\<close>

theorem update_selects_last_match:
  "k < length recipes \<Longrightarrow> ID (recipes ! k) = rid \<Longrightarrow>
   rid \<notin> set (map ID (drop (Suc k) recipes)) \<Longrightarrow>
   UpdateRecipeHandler rid (Inr payload) recipes =
     ((StatusOK, RecipeBody payload), recipes[k := payload])"
  by (rule update_at_last)

theorem update_selects_last_match_witness:
  "1 < length [R1, R1', R2] \<and> ID ([R1, R1', R2] ! 1) = ''A''
   \<and> ''A'' \<notin> set (map ID (drop (Suc 1) [R1, R1', R2]))
   \<and> UpdateRecipeHandler ''A'' (Inr P0) [R1, R1', R2] =
       ((StatusOK, RecipeBody P0), [R1, P0, R2])"
  using update_selects_last_match [of 1 "[R1, R1', R2]" "''A''" P0]
  by (simp add: R1_def R1'_def R2_def)

text \<open>
  C2. For a collection that holds the id, update overwrites the whole record at the
  selected position with the payload as supplied, whatever \<open>ID\<close> and \<open>PublishedAt\<close>
  the payload carries, and answers with a record equal to the payload.
\<close>

theorem update_overwrites_with_payload:
  "rid \<in> set (map ID recipes) \<Longrightarrow>
   \<exists>k<length recipes. ID (recipes ! k) = rid
     \<and> UpdateRecipeHandler rid (Inr payload) recipes =
         ((StatusOK, RecipeBody payload), recipes[k := payload])
     \<and> snd (UpdateRecipeHandler rid (Inr payload) recipes) ! k = payload"
proof -
  assume "rid \<in> set (map ID recipes)"
  then obtain k where k: "k < length recipes" "ID (recipes ! k) = rid"
    "rid \<notin> set (map ID (drop (Suc k) recipes))"
    using last_match_exists by blast
  then have "UpdateRecipeHandler rid (Inr payload) recipes =
      ((StatusOK, RecipeBody payload), recipes[k := payload])"
    by (rule update_at_last)
  with k show ?thesis by auto
qed

theorem update_overwrites_with_payload_witness:
  "''B'' \<in> set (map ID [R1, R2, R3])
   \<and> (\<exists>k<length [R1, R2, R3]. ID ([R1, R2, R3] ! k) = ''B''
     \<and> UpdateRecipeHandler ''B'' (Inr P0) [R1, R2, R3] =
         ((StatusOK, RecipeBody P0), [R1, R2, R3][k := P0])
     \<and> snd (UpdateRecipeHandler ''B'' (Inr P0) [R1, R2, R3]) ! k = P0)
   \<and> UpdateRecipeHandler ''B'' (Inr P0) [R1, R2, R3] =
       ((StatusOK, RecipeBody P0), [R1, P0, R3])
   \<and> ID P0 = ''Z'' \<and> PublishedAt P0 = 99"
proof -
  have h: "''B'' \<in> set (map ID [R1, R2, R3])"
    by (simp add: R2_def)
  have e: "UpdateRecipeHandler ''B'' (Inr P0) [R1, R2, R3] =
      ((StatusOK, RecipeBody P0), [R1, P0, R3])"
    using update_at_last [of 1 "[R1, R2, R3]" "''B''" P0]
    by (simp add: R1_def R2_def R3_def)
  have p: "ID P0 = ''Z'' \<and> PublishedAt P0 = 99"
    by (simp add: P0_def)
  from update_overwrites_with_payload [OF h, of P0] h e p show ?thesis
    by (intro conjI) simp_all
qed

text \<open>
  C10. A successful update leaves the length of the collection and every element at a
  position other than the selected one unchanged.
\<close>

theorem update_changes_only_selected:
  "rid \<in> set (map ID recipes) \<Longrightarrow>
   \<exists>k<length recipes. ID (recipes ! k) = rid
     \<and> snd (UpdateRecipeHandler rid (Inr payload) recipes) = recipes[k := payload]
     \<and> length (snd (UpdateRecipeHandler rid (Inr payload) recipes)) = length recipes
     \<and> (\<forall>j<length recipes. j \<noteq> k \<longrightarrow>
          snd (UpdateRecipeHandler rid (Inr payload) recipes) ! j = recipes ! j)"
proof -
  assume "rid \<in> set (map ID recipes)"
  then obtain k where k: "k < length recipes" "ID (recipes ! k) = rid"
    "rid \<notin> set (map ID (drop (Suc k) recipes))"
    using last_match_exists by blast
  then have "UpdateRecipeHandler rid (Inr payload) recipes =
      ((StatusOK, RecipeBody payload), recipes[k := payload])"
    by (rule update_at_last)
  with k show ?thesis by auto
qed

theorem update_changes_only_selected_witness:
  "''B'' \<in> set (map ID [R1, R2, R3])
   \<and> (\<exists>k<length [R1, R2, R3]. ID ([R1, R2, R3] ! k) = ''B''
     \<and> snd (UpdateRecipeHandler ''B'' (Inr P0) [R1, R2, R3]) = [R1, R2, R3][k := P0]
     \<and> length (snd (UpdateRecipeHandler ''B'' (Inr P0) [R1, R2, R3])) = length [R1, R2, R3]
     \<and> (\<forall>j<length [R1, R2, R3]. j \<noteq> k \<longrightarrow>
          snd (UpdateRecipeHandler ''B'' (Inr P0) [R1, R2, R3]) ! j = [R1, R2, R3] ! j))
   \<and> snd (UpdateRecipeHandler ''B'' (Inr P0) [R1, R2, R3]) = [R1, P0, R3]"
proof -
  have h: "''B'' \<in> set (map ID [R1, R2, R3])"
    by (simp add: R2_def)
  have e: "snd (UpdateRecipeHandler ''B'' (Inr P0) [R1, R2, R3]) = [R1, P0, R3]"
    using update_at_last [of 1 "[R1, R2, R3]" "''B''" P0]
    by (simp add: R1_def R2_def R3_def)
  from update_changes_only_selected [OF h, of P0] h e show ?thesis
    by (intro conjI)
qed

subsection \<open>Not found\<close>

text \<open>
  C3. For an id that no element carries, update and delete both answer 404 with the
  error "Recipe not found" and leave the collection as it was.
\<close>

theorem not_found_leaves_collection:
  "rid \<notin> set (map ID recipes) \<Longrightarrow>
   UpdateRecipeHandler rid (Inr payload) recipes =
     ((StatusNotFound, ErrorBody ''Recipe not found''), recipes)
   \<and> DeleteRecipeHandler rid recipes =
     ((StatusNotFound, ErrorBody ''Recipe not found''), recipes)"
  by (simp add: UpdateRecipeHandler_def DeleteRecipeHandler_def scan_loop_absent)

theorem not_found_leaves_collection_witness:
  "''nonexistent'' \<notin> set (map ID [R1, R2, R3])
   \<and> UpdateRecipeHandler ''nonexistent'' (Inr P0) [R1, R2, R3] =
     ((StatusNotFound, ErrorBody ''Recipe not found''), [R1, R2, R3])
   \<and> DeleteRecipeHandler ''nonexistent'' [R1, R2, R3] =
     ((StatusNotFound, ErrorBody ''Recipe not found''), [R1, R2, R3])"
  using not_found_leaves_collection [of "''nonexistent''" "[R1, R2, R3]" P0]
  by (simp add: R1_def R2_def R3_def)

subsection \<open>Delete\<close>

text \<open>
  C4. For a collection that holds the id, delete removes exactly one element, the last
  one carrying the id: the elements before it and the elements after it remain, in
  their order, and the collection is one element shorter.
\<close>

theorem delete_removes_last_match:
  "rid \<in> set (map ID recipes) \<Longrightarrow>
   \<exists>k<length recipes. ID (recipes ! k) = rid
     \<and> rid \<notin> set (map ID (drop (Suc k) recipes))
     \<and> DeleteRecipeHandler rid recipes =
         ((StatusOK, MessageBody ''Recipe has been deleted''),
          take k recipes @ drop (Suc k) recipes)
     \<and> Suc (length (snd (DeleteRecipeHandler rid recipes))) = length recipes"
proof -
  assume "rid \<in> set (map ID recipes)"
  then obtain k where k: "k < length recipes" "ID (recipes ! k) = rid"
    "rid \<notin> set (map ID (drop (Suc k) recipes))"
    using last_match_exists by blast
  then have "DeleteRecipeHandler rid recipes =
      ((StatusOK, MessageBody ''Recipe has been deleted''),
       take k recipes @ drop (Suc k) recipes)"
    by (rule delete_at_last)
  with k show ?thesis by auto
qed

theorem delete_removes_last_match_witness:
  "''A'' \<in> set (map ID [R1, R1', R2])
   \<and> (\<exists>k<length [R1, R1', R2]. ID ([R1, R1', R2] ! k) = ''A''
     \<and> ''A'' \<notin> set (map ID (drop (Suc k) [R1, R1', R2]))
     \<and> DeleteRecipeHandler ''A'' [R1, R1', R2] =
         ((StatusOK, MessageBody ''Recipe has been deleted''),
          take k [R1, R1', R2] @ drop (Suc k) [R1, R1', R2])
     \<and> Suc (length (snd (DeleteRecipeHandler ''A'' [R1, R1', R2]))) = length [R1, R1', R2])
   \<and> DeleteRecipeHandler ''A'' [R1, R1', R2] =
       ((StatusOK, MessageBody ''Recipe has been deleted''), [R1, R2])"
proof -
  have h: "''A'' \<in> set (map ID [R1, R1', R2])"
    by (simp add: R1_def)
  have e: "DeleteRecipeHandler ''A'' [R1, R1', R2] =
      ((StatusOK, MessageBody ''Recipe has been deleted''), [R1, R2])"
    using delete_at_last [of 1 "[R1, R1', R2]" "''A''"]
    by (simp add: R1_def R1'_def R2_def)
  from delete_removes_last_match [OF h] h e show ?thesis
    by (intro conjI)
qed

subsection \<open>Duplicate ids\<close>

text \<open>
  C8 as stated: with several elements carrying the id, the scans act on the first of
  them. The code does not: in \<open>[R1, R1', R2]\<close> positions 0 and 1 both carry
  \<open>''A''\<close>; update writes position 1 and delete removes position 1, and position 0
  stays.
\<close>

theorem scan_first_match_counterexample:
  "ID ([R1, R1', R2] ! 0) = ''A''
   \<and> snd (UpdateRecipeHandler ''A'' (Inr P0) [R1, R1', R2]) = [R1, P0, R2]
   \<and> [R1, P0, R2] \<noteq> [R1, R1', R2][0 := P0]
   \<and> snd (DeleteRecipeHandler ''A'' [R1, R1', R2]) = [R1, R2]
   \<and> [R1, R2] \<noteq> take 0 [R1, R1', R2] @ drop (Suc 0) [R1, R1', R2]"
  using update_at_last [of 1 "[R1, R1', R2]" "''A''" P0]
    delete_at_last [of 1 "[R1, R1', R2]" "''A''"]
  by (simp add: R1_def R1'_def R2_def P0_def)

text \<open>
  C8, amended. With several elements carrying the id, the scans of update and delete
  settle on the last of them: the scan returns the last matching index \<open>k\<close>, both
  operations act at \<open>k\<close>, and an earlier match \<open>i\<close> is left in place.
\<close>

theorem scans_act_on_last_match:
  assumes "i < k" "k < length recipes" "ID (recipes ! i) = rid" "ID (recipes ! k) = rid"
    "rid \<notin> set (map ID (drop (Suc k) recipes))"
  shows "scan_loop recipes rid 0 (- 1) = int k
    \<and> snd (UpdateRecipeHandler rid (Inr payload) recipes) = recipes[k := payload]
    \<and> snd (UpdateRecipeHandler rid (Inr payload) recipes) ! i = recipes ! i
    \<and> snd (DeleteRecipeHandler rid recipes) = take k recipes @ drop (Suc k) recipes
    \<and> snd (DeleteRecipeHandler rid recipes) ! i = recipes ! i"
proof -
  from assms have s: "scan_loop recipes rid 0 (- 1) = int k"
    by (intro scan_loop_last) simp_all
  from assms have u: "UpdateRecipeHandler rid (Inr payload) recipes =
      ((StatusOK, RecipeBody payload), recipes[k := payload])"
    by (intro update_at_last)
  from assms have d: "DeleteRecipeHandler rid recipes =
      ((StatusOK, MessageBody ''Recipe has been deleted''),
       take k recipes @ drop (Suc k) recipes)"
    by (intro delete_at_last)
  from assms(1,2) have "(take k recipes @ drop (Suc k) recipes) ! i = recipes ! i"
    by (simp add: nth_append)
  with s u d assms(1) show ?thesis by simp
qed

theorem scans_act_on_last_match_witness:
  "(0::nat) < 1 \<and> 1 < length [R1, R1', R2] \<and> ID ([R1, R1', R2] ! 0) = ''A''
   \<and> ID ([R1, R1', R2] ! 1) = ''A'' \<and> ''A'' \<notin> set (map ID (drop (Suc 1) [R1, R1', R2]))
   \<and> scan_loop [R1, R1', R2] ''A'' 0 (- 1) = 1
   \<and> snd (UpdateRecipeHandler ''A'' (Inr P0) [R1, R1', R2]) = [R1, P0, R2]
   \<and> snd (DeleteRecipeHandler ''A'' [R1, R1', R2]) = [R1, R2]"
  using scans_act_on_last_match [of 0 1 "[R1, R1', R2]" "''A''" P0]
  by (simp add: R1_def R1'_def R2_def)

subsection \<open>Create\<close>

text \<open>
  C6. For every bound payload, create answers 200: it stores the payload with \<open>ID\<close>
  set to the generated identifier and \<open>PublishedAt\<close> set to the current time, appends
  that record at the end of the collection and returns it. The \<open>ID\<close> and
  \<open>PublishedAt\<close> of the payload have no effect on the outcome.
\<close>

theorem create_appends_stamped_record:
  "NewRecipeHandler new_id now (Inr payload) recipes =
     ((StatusOK, RecipeBody (payload\<lparr>ID := new_id, PublishedAt := now\<rparr>)),
      recipes @ [payload\<lparr>ID := new_id, PublishedAt := now\<rparr>])
   \<and> NewRecipeHandler new_id now (Inr (payload\<lparr>ID := x, PublishedAt := t\<rparr>)) recipes =
       NewRecipeHandler new_id now (Inr payload) recipes"
  by (simp add: NewRecipeHandler_def Let_def)

theorem create_appends_stamped_record_witness:
  "NewRecipeHandler ''9m4e2mr0ui3e8a215n4g'' 1000 (Inr P0) [R1, R2] =
     ((StatusOK, RecipeBody (P0\<lparr>ID := ''9m4e2mr0ui3e8a215n4g'', PublishedAt := 1000\<rparr>)),
      [R1, R2, P0\<lparr>ID := ''9m4e2mr0ui3e8a215n4g'', PublishedAt := 1000\<rparr>])"
  using create_appends_stamped_record [of "''9m4e2mr0ui3e8a215n4g''" 1000 P0 "[R1, R2]"]
  by simp

subsection \<open>Search by tag\<close>



text \<open>
  C9. A recipe occurs in the result of a search no more often than in the collection,
  however many of its tags match: the result is a subsequence of the collection.
\<close>

theorem search_lists_each_recipe_once:
  "\<exists>out. SearchRecipesHandler U q recipes = ((StatusOK, RecipesBody out), recipes)
     \<and> subseq out recipes \<and> count_list out r \<le> count_list recipes r"
  by (simp add: search_result count_list_filter_le)

theorem search_lists_each_recipe_once_witness:
  "SearchRecipesHandler no_unicode (Some ''quick'') [RQ] = ((StatusOK, RecipesBody [RQ]), [RQ])
   \<and> (\<exists>out. SearchRecipesHandler no_unicode (Some ''quick'') [RQ] =
               ((StatusOK, RecipesBody out), [RQ])
         \<and> subseq out [RQ] \<and> count_list out RQ \<le> count_list [RQ] RQ)"
proof -
  have "SearchRecipesHandler no_unicode (Some ''quick'') [RQ] =
      ((StatusOK, RecipesBody [RQ]), [RQ])"
    by (simp add: search_result Query_def RQ_def ascii_step_def RuneSelf_def)
  with search_lists_each_recipe_once [of no_unicode "Some ''quick''" "[RQ]" RQ]
  show ?thesis by (intro conjI)
qed

text \<open>
  C7 as stated: for every collection, a search with an empty or absent tag has an empty
  result. It has not when a recipe carries the empty string as a tag: \<open>RE\<close> is found
  by the search without a tag and by the search for the empty tag.
\<close>

theorem search_empty_tag_counterexample:
  "SearchRecipesHandler no_unicode None [RE] = ((StatusOK, RecipesBody [RE]), [RE])
   \<and> SearchRecipesHandler no_unicode (Some []) [RE] = ((StatusOK, RecipesBody [RE]), [RE])
   \<and> [RE] \<noteq> []"
  by (simp add: search_result Query_def RE_def)

text \<open>
  C7, amended. A search with an empty or absent tag goes through the same filter as any
  other tag: it answers with the recipes that carry the empty string as a tag, in the
  order of the collection, and so with the empty list when no recipe carries it.
\<close>

theorem search_empty_tag_matches_empty_tags:
  "q = None \<or> q = Some [] \<Longrightarrow>
   SearchRecipesHandler U q recipes =
     ((StatusOK, RecipesBody (filter (\<lambda>r. [] \<in> set (Tags r)) recipes)), recipes)"
proof -
  assume "q = None \<or> q = Some []"
  then have "Query q = []" by (auto simp: Query_def)
  then show ?thesis by (simp add: search_result EqualFold_empty)
qed

theorem search_empty_tag_matches_empty_tags_witness:
  "SearchRecipesHandler no_unicode None [R1, RE, R2] =
     ((StatusOK, RecipesBody [RE]), [R1, RE, R2])
   \<and> SearchRecipesHandler no_unicode None [R1, R2] =
     ((StatusOK, RecipesBody []), [R1, R2])"
  using search_empty_tag_matches_empty_tags [of None no_unicode "[R1, RE, R2]"]
    search_empty_tag_matches_empty_tags [of None no_unicode "[R1, R2]"]
  by (simp add: R1_def R2_def RE_def)

end
